theory Spec2Isabelle
  imports Main
begin

section \<open>The generic core of \<^verbatim>\<open>reflexagent.py\<close>\<close>

text \<open>
  The collaborators of the agent (transition model, sensor model, rule conditions) are
  Python callables: each either returns a value or raises. A call is therefore a value of
  \<open>'e + 'r\<close>, with \<open>Inl\<close> for the exception raised and \<open>Inr\<close> for the value returned.
  Belief states \<open>'s\<close>, actions \<open>'a\<close> and percepts \<open>'p\<close> are opaque to the core, so the core
  is polymorphic in them. In this section a collaborator is a function of the values of
  its arguments: it is handed the content of the belief state and returns a content. That
  is what the code does with collaborators that write into no object they are handed,
  as the vacuum models are; a later section models the belief state as an object that a
  collaborator can write into.
\<close>

subsection \<open>Rule (lines 6-10)\<close>

datatype ('s, 'a, 'e) rule =
  Rule (condition: "'s \<Rightarrow> 'e + bool") (action: 'a)

subsection \<open>\<^verbatim>\<open>rule_match\<close> (lines 12-16)\<close>

text \<open>
  The \<^verbatim>\<open>for\<close> loop over the rules: a condition that raises ends the call with that
  exception, a condition that holds returns its rule, and the exhausted list returns
  \<^verbatim>\<open>None\<close>.
\<close>

fun rule_match :: "'s \<Rightarrow> ('s, 'a, 'e) rule list \<Rightarrow> 'e + ('s, 'a, 'e) rule option" where
  "rule_match st [] = Inr None"
| "rule_match st (r # rs) =
     (case condition r st of
        Inl e \<Rightarrow> Inl e
      | Inr b \<Rightarrow> if b then Inr (Some r) else rule_match st rs)"

subsection \<open>\<^verbatim>\<open>update_state\<close> (lines 18-33)\<close>

definition update_state ::
  "'s \<Rightarrow> 'a \<Rightarrow> 'p \<Rightarrow> ('s \<Rightarrow> 'a \<Rightarrow> 'e + 's) \<Rightarrow> ('p \<Rightarrow> 's \<Rightarrow> 'e + 's) \<Rightarrow> 'e + 's" where
  "update_state st last_action percept transition_model sensor_model =
     (case transition_model st last_action of
        Inl e \<Rightarrow> Inl e
      | Inr predicted \<Rightarrow>
          (case sensor_model percept predicted of
             Inl e \<Rightarrow> Inl e
           | Inr corrected \<Rightarrow> Inr corrected))"

subsection \<open>\<^verbatim>\<open>ModelBasedReflexAgent\<close> (lines 35-60)\<close>

text \<open>
  The field the source calls \<^verbatim>\<open>self.action\<close> is \<open>self_action\<close> here, since \<open>action\<close> is
  already the selector of a rule.
\<close>

record ('s, 'a, 'p, 'e) agent =
  transition_model :: "'s \<Rightarrow> 'a \<Rightarrow> 'e + 's"
  sensor_model :: "'p \<Rightarrow> 's \<Rightarrow> 'e + 's"
  rules :: "('s, 'a, 'e) rule list"
  state :: 's
  self_action :: 'a
  no_op :: 'a

text \<open>
  \<^verbatim>\<open>perceive\<close> returns what the call did (the exception raised or the action returned)
  together with the agent as the call leaves it. The two assignments of the source are
  the two record updates: \<^verbatim>\<open>self.state\<close> is assigned once \<^verbatim>\<open>update_state\<close> has returned,
  \<^verbatim>\<open>self.action\<close> once \<^verbatim>\<open>rule_match\<close> has returned. A \<^verbatim>\<open>Rule\<close> object is always truthy, so
  \<^verbatim>\<open>r.action if r else self.no_op\<close> tests for \<^verbatim>\<open>None\<close>.
\<close>

definition perceive ::
  "('s, 'a, 'p, 'e) agent \<Rightarrow> 'p \<Rightarrow> ('e + 'a) \<times> ('s, 'a, 'p, 'e) agent" where
  "perceive ag percept =
     (case update_state (state ag) (self_action ag) percept
             (transition_model ag) (sensor_model ag) of
        Inl e \<Rightarrow> (Inl e, ag)
      | Inr st \<Rightarrow>
          (let ag1 = ag\<lparr>state := st\<rparr> in
           case rule_match (state ag1) (rules ag1) of
             Inl e \<Rightarrow> (Inl e, ag1)
           | Inr r \<Rightarrow>
               (let ag2 = ag1\<lparr>self_action :=
                            (case r of Some r' \<Rightarrow> action r' | None \<Rightarrow> no_op ag1)\<rparr>
                in (Inr (self_action ag2), ag2))))"

text \<open>
  A host loop feeding percepts in order (lines 128-130): each step records what
  \<^verbatim>\<open>perceive\<close> returned and the belief state after it; an exception ends the loop.
\<close>

fun run ::
  "('s, 'a, 'p, 'e) agent \<Rightarrow> 'p list \<Rightarrow> (('e + 'a) \<times> 's) list \<times> ('s, 'a, 'p, 'e) agent" where
  "run ag [] = ([], ag)"
| "run ag (z # zs) =
     (case perceive ag z of
        (Inl e, ag') \<Rightarrow> ([(Inl e, state ag')], ag')
      | (Inr a, ag') \<Rightarrow>
          (case run ag' zs of (tr, agf) \<Rightarrow> ((Inr a, state ag') # tr, agf)))"

section \<open>The vacuum world (lines 62-106)\<close>

subsection \<open>Python values\<close>

text \<open>
  The values the vacuum world handles: \<^verbatim>\<open>None\<close>, booleans, strings and dictionaries. A
  dictionary is the list of its items in insertion order. Equality of these values is
  structural; for dictionaries it is finer than Python's \<^verbatim>\<open>==\<close>, which ignores the order
  of the items.
\<close>

datatype pyval =
  PNone
| PBool bool
| PStr string
| PDict "(pyval \<times> pyval) list"

type_synonym pydict = "(pyval \<times> pyval) list"

datatype pyerr = KeyError | TypeError | ValueError | AttributeError

text \<open>A dictionary is unhashable, so it is no dictionary key.\<close>

fun hashable :: "pyval \<Rightarrow> bool" where
  "hashable (PDict d) = False"
| "hashable v = True"

text \<open>\<^verbatim>\<open>d.get(k, dflt)\<close> for a hashable key.\<close>

definition lookup_default :: "pydict \<Rightarrow> pyval \<Rightarrow> pyval \<Rightarrow> pyval" where
  "lookup_default d k dflt = (case map_of d k of None \<Rightarrow> dflt | Some v \<Rightarrow> v)"

text \<open>\<^verbatim>\<open>d[k] = v\<close> for a hashable key: the item is replaced in place, or appended.\<close>

fun store :: "pydict \<Rightarrow> pyval \<Rightarrow> pyval \<Rightarrow> pydict" where
  "store [] k v = [(k, v)]"
| "store ((k', v') # d) k v = (if k' = k then (k, v) # d else (k', v') # store d k v)"

text \<open>\<^verbatim>\<open>d.get(k, dflt)\<close>, \<^verbatim>\<open>d[k]\<close> and \<^verbatim>\<open>d[k] = v\<close> for any key.\<close>

definition py_get :: "pydict \<Rightarrow> pyval \<Rightarrow> pyval \<Rightarrow> pyerr + pyval" where
  "py_get d k dflt = (if hashable k then Inr (lookup_default d k dflt) else Inl TypeError)"

definition py_getitem :: "pydict \<Rightarrow> pyval \<Rightarrow> pyerr + pyval" where
  "py_getitem d k =
     (if hashable k
      then (case map_of d k of None \<Rightarrow> Inl KeyError | Some v \<Rightarrow> Inr v)
      else Inl TypeError)"

definition py_setitem :: "pydict \<Rightarrow> pyval \<Rightarrow> pyval \<Rightarrow> pyerr + pydict" where
  "py_setitem d k v = (if hashable k then Inr (store d k v) else Inl TypeError)"

text \<open>
  \<^verbatim>\<open>dict(v)\<close>: a copy of a dictionary; the empty dictionary for the empty string (an
  iterable with no element); \<^verbatim>\<open>ValueError\<close> for any other string (its elements are not
  pairs); \<^verbatim>\<open>TypeError\<close> for \<^verbatim>\<open>None\<close> and booleans, which are not iterable.
\<close>

fun py_dict :: "pyval \<Rightarrow> pyerr + pydict" where
  "py_dict (PDict d) = Inr d"
| "py_dict (PStr s) = (if s = [] then Inr [] else Inl ValueError)"
| "py_dict PNone = Inl TypeError"
| "py_dict (PBool b) = Inl TypeError"

text \<open>\<^verbatim>\<open>v.get(k, dflt)\<close> on any value: only a dictionary has the attribute.\<close>

fun py_attr_get :: "pyval \<Rightarrow> pyval \<Rightarrow> pyval \<Rightarrow> pyerr + pyval" where
  "py_attr_get (PDict d) k dflt = py_get d k dflt"
| "py_attr_get v k dflt = Inl AttributeError"

subsection \<open>\<^verbatim>\<open>vacuum_transition_model\<close> (lines 71-80)\<close>

definition vacuum_transition_model :: "pydict \<Rightarrow> pyval \<Rightarrow> pydict" where
  "vacuum_transition_model st last_action =
     (let s = st;
          loc = lookup_default s (PStr ''loc'') PNone in
      if last_action = PStr ''LEFT'' then store s (PStr ''loc'') (PStr ''A'')
      else if last_action = PStr ''RIGHT'' then store s (PStr ''loc'') (PStr ''B'')
      else s)"

subsection \<open>\<^verbatim>\<open>vacuum_sensor_model\<close> (lines 82-96)\<close>

text \<open>
  The statements in the source's order; the right-hand side \<^verbatim>\<open>percept['dirty']\<close> is
  evaluated before the store into \<^verbatim>\<open>dirty[loc]\<close>.
\<close>

definition vacuum_sensor_model :: "pydict \<Rightarrow> pydict \<Rightarrow> pyerr + pydict" where
  "vacuum_sensor_model percept predicted =
     (let s = predicted in
      case py_getitem percept (PStr ''loc'') of
        Inl e \<Rightarrow> Inl e
      | Inr loc \<Rightarrow>
          (let s1 = store s (PStr ''loc'') loc;
               dirty = lookup_default s1 (PStr ''dirty'')
                         (PDict [(PStr ''A'', PBool False), (PStr ''B'', PBool False)])
           in case py_dict dirty of
                Inl e \<Rightarrow> Inl e
              | Inr dirty1 \<Rightarrow>
                  (case py_getitem percept (PStr ''dirty'') of
                     Inl e \<Rightarrow> Inl e
                   | Inr z \<Rightarrow>
                       (case py_setitem dirty1 loc z of
                          Inl e \<Rightarrow> Inl e
                        | Inr dirty2 \<Rightarrow> Inr (store s1 (PStr ''dirty'') (PDict dirty2))))))"

subsection \<open>\<^verbatim>\<open>vacuum_rules\<close> (lines 102-106)\<close>

definition dirty_here :: "pydict \<Rightarrow> pyerr + bool" where
  "dirty_here st =
     (case py_attr_get (lookup_default st (PStr ''dirty'') (PDict []))
             (lookup_default st (PStr ''loc'') PNone) (PBool False) of
        Inl e \<Rightarrow> Inl e
      | Inr v \<Rightarrow> Inr (v = PBool True))"

definition at_A :: "pydict \<Rightarrow> pyerr + bool" where
  "at_A st = Inr (lookup_default st (PStr ''loc'') PNone = PStr ''A'')"

definition at_B :: "pydict \<Rightarrow> pyerr + bool" where
  "at_B st = Inr (lookup_default st (PStr ''loc'') PNone = PStr ''B'')"

definition vacuum_rules :: "(pydict, pyval, pyerr) rule list" where
  "vacuum_rules =
     [Rule dirty_here (PStr ''SUCK''),
      Rule at_A (PStr ''RIGHT''),
      Rule at_B (PStr ''LEFT'')]"

subsection \<open>The constructor (lines 36-49) and the demonstration agent (lines 111-126)\<close>

text \<open>
  \<^verbatim>\<open>initial_state or {}\<close>: \<^verbatim>\<open>None\<close> and the empty dictionary are both falsy and give the
  empty dictionary. The last action starts as the no-op.
\<close>

definition ModelBasedReflexAgent ::
  "(pydict \<Rightarrow> 'a \<Rightarrow> 'e + pydict) \<Rightarrow> ('p \<Rightarrow> pydict \<Rightarrow> 'e + pydict) \<Rightarrow>
   (pydict, 'a, 'e) rule list \<Rightarrow> pydict option \<Rightarrow> 'a \<Rightarrow> (pydict, 'a, 'p, 'e) agent" where
  "ModelBasedReflexAgent tm sm rs initial_state noop =
     \<lparr>transition_model = tm, sensor_model = sm, rules = rs,
      state = (case initial_state of None \<Rightarrow> [] | Some d \<Rightarrow> if d = [] then [] else d),
      self_action = noop, no_op = noop\<rparr>"

text \<open>The vacuum transition model never raises: as a collaborator it always returns.\<close>

definition vacuum_agent :: "pydict option \<Rightarrow> pyval \<Rightarrow> (pydict, pyval, pydict, pyerr) agent" where
  "vacuum_agent initial_state noop =
     ModelBasedReflexAgent (\<lambda>st a. Inr (vacuum_transition_model st a))
       vacuum_sensor_model vacuum_rules initial_state noop"

definition mk_percept :: "string \<Rightarrow> bool \<Rightarrow> pydict" where
  "mk_percept l d = [(PStr ''loc'', PStr l), (PStr ''dirty'', PBool d)]"

definition mk_belief :: "string \<Rightarrow> bool \<Rightarrow> bool \<Rightarrow> pydict" where
  "mk_belief l a b =
     [(PStr ''loc'', PStr l),
      (PStr ''dirty'', PDict [(PStr ''A'', PBool a), (PStr ''B'', PBool b)])]"

definition demo_agent :: "(pydict, pyval, pydict, pyerr) agent" where
  "demo_agent = vacuum_agent (Some (mk_belief ''A'' True True)) (PStr ''NO-OP'')"

definition demo_percepts :: "pydict list" where
  "demo_percepts =
     [mk_percept ''A'' True, mk_percept ''A'' False, mk_percept ''B'' True,
      mk_percept ''B'' False, mk_percept ''A'' False]"

section \<open>The core with the belief state as a shared object\<close>

text \<open>
  \<^verbatim>\<open>perceive\<close> hands \<^verbatim>\<open>self.state\<close> itself to \<^verbatim>\<open>update_state\<close> (lines 53-56), which hands it
  to the transition model (line 30): the model receives the agent's dictionary, not a
  copy, and can write into it; and two agents constructed with one \<^verbatim>\<open>initial_state\<close>
  hold the same dictionary (line 47). Where a property depends on that, the belief state
  is a reference into a store of objects. The store is the list of the objects' contents,
  a reference is an index into it, allocating appends, and writing into an object is
  \<open>h[r := v]\<close>. A collaborator takes the store and returns it, changed as it pleases,
  together with what it returned or raised. The definitions below are those of the first
  section with the store threaded through them, in the same order.
\<close>

type_synonym 's heap = "'s list"
type_synonym ref = nat

subsection \<open>\<^verbatim>\<open>Rule\<close> and \<^verbatim>\<open>rule_match\<close> (lines 6-16)\<close>

datatype ('s, 'a, 'e) rule_h =
  Rule_h (condition_h: "'s heap \<Rightarrow> ref \<Rightarrow> ('e + bool) \<times> 's heap") (action_h: 'a)

fun rule_match_h ::
  "'s heap \<Rightarrow> ref \<Rightarrow> ('s, 'a, 'e) rule_h list \<Rightarrow> ('e + ('s, 'a, 'e) rule_h option) \<times> 's heap" where
  "rule_match_h h st [] = (Inr None, h)"
| "rule_match_h h st (r # rs) =
     (case condition_h r h st of
        (Inl e, h') \<Rightarrow> (Inl e, h')
      | (Inr b, h') \<Rightarrow> if b then (Inr (Some r), h') else rule_match_h h' st rs)"

subsection \<open>\<^verbatim>\<open>update_state\<close> (lines 18-33)\<close>

definition update_state_h ::
  "'s heap \<Rightarrow> ref \<Rightarrow> 'a \<Rightarrow> 'p \<Rightarrow> ('s heap \<Rightarrow> ref \<Rightarrow> 'a \<Rightarrow> ('e + ref) \<times> 's heap) \<Rightarrow>
   ('s heap \<Rightarrow> 'p \<Rightarrow> ref \<Rightarrow> ('e + ref) \<times> 's heap) \<Rightarrow> ('e + ref) \<times> 's heap" where
  "update_state_h h st last_action percept tm sm =
     (case tm h st last_action of
        (Inl e, h1) \<Rightarrow> (Inl e, h1)
      | (Inr predicted, h1) \<Rightarrow>
          (case sm h1 percept predicted of
             (Inl e, h2) \<Rightarrow> (Inl e, h2)
           | (Inr corrected, h2) \<Rightarrow> (Inr corrected, h2)))"

subsection \<open>\<^verbatim>\<open>ModelBasedReflexAgent\<close> (lines 35-60)\<close>

text \<open>
  The fields of an agent belong to that agent alone (they are instance attributes, and
  the class has no class attribute and uses no global): an agent is a record, its
  \<open>state_h\<close> a reference into the store.
\<close>

record ('s, 'a, 'p, 'e) agent_h =
  transition_model_h :: "'s heap \<Rightarrow> ref \<Rightarrow> 'a \<Rightarrow> ('e + ref) \<times> 's heap"
  sensor_model_h :: "'s heap \<Rightarrow> 'p \<Rightarrow> ref \<Rightarrow> ('e + ref) \<times> 's heap"
  rules_h :: "('s, 'a, 'e) rule_h list"
  state_h :: ref
  self_action_h :: 'a
  no_op_h :: 'a

definition perceive_h ::
  "'s heap \<Rightarrow> ('s, 'a, 'p, 'e) agent_h \<Rightarrow> 'p \<Rightarrow>
   ('e + 'a) \<times> ('s, 'a, 'p, 'e) agent_h \<times> 's heap" where
  "perceive_h h ag percept =
     (case update_state_h h (state_h ag) (self_action_h ag) percept
             (transition_model_h ag) (sensor_model_h ag) of
        (Inl e, h1) \<Rightarrow> (Inl e, ag, h1)
      | (Inr st, h1) \<Rightarrow>
          (let ag1 = ag\<lparr>state_h := st\<rparr> in
           case rule_match_h h1 (state_h ag1) (rules_h ag1) of
             (Inl e, h2) \<Rightarrow> (Inl e, ag1, h2)
           | (Inr r, h2) \<Rightarrow>
               (let ag2 = ag1\<lparr>self_action_h :=
                            (case r of Some r' \<Rightarrow> action_h r' | None \<Rightarrow> no_op_h ag1)\<rparr>
                in (Inr (self_action_h ag2), ag2, h2))))"

text \<open>The host loop (lines 128-130); each step records the content of the belief state.\<close>

fun run_h ::
  "'s heap \<Rightarrow> ('s, 'a, 'p, 'e) agent_h \<Rightarrow> 'p list \<Rightarrow>
   (('e + 'a) \<times> 's) list \<times> ('s, 'a, 'p, 'e) agent_h \<times> 's heap" where
  "run_h h ag [] = ([], ag, h)"
| "run_h h ag (z # zs) =
     (case perceive_h h ag z of
        (Inl e, ag', h') \<Rightarrow> ([(Inl e, h' ! state_h ag')], ag', h')
      | (Inr a, ag', h') \<Rightarrow>
          (case run_h h' ag' zs of (tr, agf, hf) \<Rightarrow> ((Inr a, h' ! state_h ag') # tr, agf, hf)))"

subsection \<open>Collaborators that keep the contract\<close>

text \<open>
  \<open>extends h h'\<close>: every object of \<open>h\<close> is in \<open>h'\<close> with the content it had; \<open>h'\<close> may hold
  new objects.
\<close>

definition extends :: "'s heap \<Rightarrow> 's heap \<Rightarrow> bool" where
  "extends h h' \<longleftrightarrow> take (length h) h' = h"

text \<open>
  A model that writes into no object that existed when it was called: the store it
  leaves extends the store it was given.
\<close>

definition nonmutating_transition ::
  "('s heap \<Rightarrow> ref \<Rightarrow> 'a \<Rightarrow> ('e + ref) \<times> 's heap) \<Rightarrow> bool" where
  "nonmutating_transition T \<longleftrightarrow> (\<forall>h r a. extends h (snd (T h r a)))"

definition nonmutating_sensor ::
  "('s heap \<Rightarrow> 'p \<Rightarrow> ref \<Rightarrow> ('e + ref) \<times> 's heap) \<Rightarrow> bool" where
  "nonmutating_sensor S \<longleftrightarrow> (\<forall>h z r. extends h (snd (S h z r)))"

text \<open>
  A pure, deterministic collaborator: it writes into no existing object, and what it
  returns or raises is a function (\<open>t\<close>, \<open>s\<close>, \<open>c\<close>) of the content of its arguments alone.
  The object it returns may be new or an existing one.
\<close>

definition pure_transition ::
  "('s heap \<Rightarrow> ref \<Rightarrow> 'a \<Rightarrow> ('e + ref) \<times> 's heap) \<Rightarrow> ('s \<Rightarrow> 'a \<Rightarrow> 'e + 's) \<Rightarrow> bool" where
  "pure_transition T t \<longleftrightarrow>
     (\<forall>h r a. r < length h \<longrightarrow>
        extends h (snd (T h r a)) \<and>
        (case fst (T h r a) of
           Inl e \<Rightarrow> t (h ! r) a = Inl e
         | Inr r' \<Rightarrow> r' < length (snd (T h r a)) \<and> t (h ! r) a = Inr (snd (T h r a) ! r')))"

definition pure_sensor ::
  "('s heap \<Rightarrow> 'p \<Rightarrow> ref \<Rightarrow> ('e + ref) \<times> 's heap) \<Rightarrow> ('p \<Rightarrow> 's \<Rightarrow> 'e + 's) \<Rightarrow> bool" where
  "pure_sensor S s \<longleftrightarrow>
     (\<forall>h z r. r < length h \<longrightarrow>
        extends h (snd (S h z r)) \<and>
        (case fst (S h z r) of
           Inl e \<Rightarrow> s z (h ! r) = Inl e
         | Inr r' \<Rightarrow> r' < length (snd (S h z r)) \<and> s z (h ! r) = Inr (snd (S h z r) ! r')))"

definition pure_condition ::
  "('s heap \<Rightarrow> ref \<Rightarrow> ('e + bool) \<times> 's heap) \<Rightarrow> ('s \<Rightarrow> 'e + bool) \<Rightarrow> bool" where
  "pure_condition C c \<longleftrightarrow>
     (\<forall>h r. r < length h \<longrightarrow> extends h (snd (C h r)) \<and> fst (C h r) = c (h ! r))"

definition pure_rules :: "('s, 'a, 'e) rule_h list \<Rightarrow> ('s, 'a, 'e) rule list \<Rightarrow> bool" where
  "pure_rules Rs rs \<longleftrightarrow>
     list_all2 (\<lambda>R r. pure_condition (condition_h R) (condition r) \<and> action_h R = action r) Rs rs"

text \<open>The agent of the first section that an agent over a store stands for.\<close>

definition abs_agent ::
  "('s \<Rightarrow> 'a \<Rightarrow> 'e + 's) \<Rightarrow> ('p \<Rightarrow> 's \<Rightarrow> 'e + 's) \<Rightarrow> ('s, 'a, 'e) rule list \<Rightarrow>
   's heap \<Rightarrow> ('s, 'a, 'p, 'e) agent_h \<Rightarrow> ('s, 'a, 'p, 'e) agent" where
  "abs_agent t s rs h ag =
     \<lparr>transition_model = t, sensor_model = s, rules = rs, state = h ! state_h ag,
      self_action = self_action_h ag, no_op = no_op_h ag\<rparr>"

subsection \<open>The vacuum world over the store\<close>

text \<open>
  \<^verbatim>\<open>vacuum_transition_model\<close> copies its argument (\<^verbatim>\<open>s = dict(state)\<close>, line 73), writes into
  the copy only and returns the copy: a new object whose content is what the function of
  the first section computes from the content of \<^verbatim>\<open>state\<close>. \<^verbatim>\<open>vacuum_sensor_model\<close> does the
  same with \<^verbatim>\<open>predicted\<close> (line 89) and with the inner dictionary (\<^verbatim>\<open>dict(dirty)\<close>, line 93),
  so no inner dictionary is written into either, and the content of an object is its
  value as a whole. A copy that is dropped when the function raises is left out of the
  store. The rule conditions only read.
\<close>

definition vacuum_transition_model_h ::
  "pydict heap \<Rightarrow> ref \<Rightarrow> pyval \<Rightarrow> (pyerr + ref) \<times> pydict heap" where
  "vacuum_transition_model_h h st last_action =
     (Inr (length h), h @ [vacuum_transition_model (h ! st) last_action])"

definition vacuum_sensor_model_h ::
  "pydict heap \<Rightarrow> pydict \<Rightarrow> ref \<Rightarrow> (pyerr + ref) \<times> pydict heap" where
  "vacuum_sensor_model_h h percept predicted =
     (case vacuum_sensor_model percept (h ! predicted) of
        Inl e \<Rightarrow> (Inl e, h)
      | Inr s \<Rightarrow> (Inr (length h), h @ [s]))"

definition vacuum_rules_h :: "(pydict, pyval, pyerr) rule_h list" where
  "vacuum_rules_h =
     [Rule_h (\<lambda>h st. (dirty_here (h ! st), h)) (PStr ''SUCK''),
      Rule_h (\<lambda>h st. (at_A (h ! st), h)) (PStr ''RIGHT''),
      Rule_h (\<lambda>h st. (at_B (h ! st), h)) (PStr ''LEFT'')]"

text \<open>
  The constructor (lines 36-49): \<^verbatim>\<open>initial_state or {}\<close> is the object passed, itself, unless
  it is \<^verbatim>\<open>None\<close> or empty, and then a new empty dictionary.
\<close>

definition ModelBasedReflexAgent_h ::
  "pydict heap \<Rightarrow> (pydict heap \<Rightarrow> ref \<Rightarrow> 'a \<Rightarrow> ('e + ref) \<times> pydict heap) \<Rightarrow>
   (pydict heap \<Rightarrow> 'p \<Rightarrow> ref \<Rightarrow> ('e + ref) \<times> pydict heap) \<Rightarrow>
   (pydict, 'a, 'e) rule_h list \<Rightarrow> ref option \<Rightarrow> 'a \<Rightarrow>
   (pydict, 'a, 'p, 'e) agent_h \<times> pydict heap" where
  "ModelBasedReflexAgent_h h tm sm rs initial_state noop =
     (case (case initial_state of
              None \<Rightarrow> (length h, h @ [[]])
            | Some r \<Rightarrow> if h ! r = [] then (length h, h @ [[]]) else (r, h)) of
        (st, h') \<Rightarrow>
          (\<lparr>transition_model_h = tm, sensor_model_h = sm, rules_h = rs,
            state_h = st, self_action_h = noop, no_op_h = noop\<rparr>, h'))"

definition vacuum_agent_h ::
  "pydict heap \<Rightarrow> ref option \<Rightarrow> pyval \<Rightarrow>
   (pydict, pyval, pydict, pyerr) agent_h \<times> pydict heap" where
  "vacuum_agent_h h initial_state noop =
     ModelBasedReflexAgent_h h vacuum_transition_model_h vacuum_sensor_model_h
       vacuum_rules_h initial_state noop"

section \<open>Auxiliary facts\<close>

subsection \<open>Dictionaries\<close>

lemma map_of_store: "map_of (store d k v) = (map_of d)(k \<mapsto> v)"
  by (induction d) auto

lemma lookup_default_store:
  "lookup_default (store d k v) k' dflt = (if k' = k then v else lookup_default d k' dflt)"
  by (simp add: lookup_default_def map_of_store)

subsection \<open>Rule matching\<close>

lemma rule_match_find:
  "\<forall>r\<in>set rs. \<not> isl (condition r st) \<Longrightarrow>
   rule_match st rs = Inr (find (\<lambda>r. condition r st = Inr True) rs)"
  by (induction rs) (auto split: sum.splits)

lemma rule_match_Some_iff:
  "rule_match st rs = Inr (Some r) \<longleftrightarrow>
   (\<exists>i<length rs. rs ! i = r \<and> condition r st = Inr True \<and>
      (\<forall>j<i. condition (rs ! j) st = Inr False))"
proof (induction rs)
  case Nil
  then show ?case by simp
next
  case (Cons q rs)
  then show ?case
    by (cases "condition q st") (auto simp: Ex_less_Suc2 All_less_Suc2)
qed

lemma rule_match_Inl_iff:
  "rule_match st rs = Inl e \<longleftrightarrow>
   (\<exists>i<length rs. condition (rs ! i) st = Inl e \<and>
      (\<forall>j<i. condition (rs ! j) st = Inr False))"
proof (induction rs)
  case Nil
  then show ?case by simp
next
  case (Cons q rs)
  then show ?case
    by (cases "condition q st") (auto simp: Ex_less_Suc2 All_less_Suc2)
qed

lemma rule_match_None_iff:
  "rule_match st rs = Inr None \<longleftrightarrow> (\<forall>q\<in>set rs. condition q st = Inr False)"
  by (induction rs) (auto split: sum.splits)

subsection \<open>The agent\<close>

text \<open>
  The third way a \<^verbatim>\<open>perceive\<close> call can end: the models return and a rule condition
  raises. Then \<^verbatim>\<open>state\<close> has been assigned and the last action has not.
\<close>

lemma perceive_condition_raises:
  assumes "update_state (state ag) (self_action ag) z (transition_model ag) (sensor_model ag)
             = Inr st'"
      and "rule_match st' (rules ag) = Inl e"
  shows "perceive ag z = (Inl e, ag\<lparr>state := st'\<rparr>)"
  using assms by (simp add: perceive_def Let_def)

subsection \<open>The vacuum world\<close>

lemma vacuum_transition_dirty:
  "lookup_default (vacuum_transition_model st a) (PStr ''dirty'') dflt =
   lookup_default st (PStr ''dirty'') dflt"
  by (simp add: vacuum_transition_model_def lookup_default_store)

lemma dirty_entry_converts:
  assumes "map_of st (PStr ''dirty'') = None \<or>
           (\<exists>dd. map_of st (PStr ''dirty'') = Some (PDict dd))"
  shows "\<exists>dd. py_dict (lookup_default st (PStr ''dirty'') (PDict dflt)) = Inr dd"
  using assms by (auto simp: lookup_default_def)

lemma vacuum_sensor_returns:
  assumes loc: "map_of z (PStr ''loc'') = Some (PStr l)"
      and dirty: "map_of z (PStr ''dirty'') = Some zd"
      and conv: "py_dict (lookup_default predicted (PStr ''dirty'')
                    (PDict [(PStr ''A'', PBool False), (PStr ''B'', PBool False)])) = Inr dd"
  shows "vacuum_sensor_model z predicted =
           Inr (store (store predicted (PStr ''loc'') (PStr l)) (PStr ''dirty'')
                  (PDict (store dd (PStr l) zd)))"
  using loc dirty conv
  by (simp add: vacuum_sensor_model_def py_getitem_def py_setitem_def lookup_default_store)

lemma vacuum_rules_on_corrected:
  "rule_match (store (store predicted (PStr ''loc'') (PStr l)) (PStr ''dirty'')
                  (PDict (store dd (PStr l) (PBool d)))) vacuum_rules =
   Inr (if d then Some (Rule dirty_here (PStr ''SUCK''))
        else if l = ''A'' then Some (Rule at_A (PStr ''RIGHT''))
        else if l = ''B'' then Some (Rule at_B (PStr ''LEFT''))
        else None)"
  by (simp add: vacuum_rules_def dirty_here_def at_A_def at_B_def py_get_def
      lookup_default_store)

subsection \<open>The store\<close>

lemma extends_iff: "extends h h' \<longleftrightarrow> (\<exists>ext. h' = h @ ext)"
proof
  assume "extends h h'"
  then have "take (length h) h' = h" by (simp add: extends_def)
  then have "h' = h @ drop (length h) h'" by (metis append_take_drop_id)
  then show "\<exists>ext. h' = h @ ext" ..
next
  assume "\<exists>ext. h' = h @ ext"
  then show "extends h h'" by (auto simp: extends_def)
qed

lemma extends_refl: "extends h h"
  by (simp add: extends_def)

lemma extends_length: "extends h h' \<Longrightarrow> length h \<le> length h'"
  by (auto simp: extends_iff)

lemma extends_nth: "extends h h' \<Longrightarrow> r < length h \<Longrightarrow> h' ! r = h ! r"
  by (auto simp: extends_iff nth_append)

lemma extends_trans: "extends h h1 \<Longrightarrow> extends h1 h2 \<Longrightarrow> extends h h2"
  by (auto simp: extends_iff)

lemma pure_transitionD:
  assumes "pure_transition T t" and "r < length h" and "T h r a = (x, h1)"
  shows "extends h h1"
    and "case x of Inl e \<Rightarrow> t (h ! r) a = Inl e
         | Inr r' \<Rightarrow> r' < length h1 \<and> t (h ! r) a = Inr (h1 ! r')"
proof -
  from assms(1) have "r < length h \<longrightarrow>
        extends h (snd (T h r a)) \<and>
        (case fst (T h r a) of
           Inl e \<Rightarrow> t (h ! r) a = Inl e
         | Inr r' \<Rightarrow> r' < length (snd (T h r a)) \<and> t (h ! r) a = Inr (snd (T h r a) ! r'))"
    unfolding pure_transition_def by blast
  with assms(2,3) show "extends h h1"
    and "case x of Inl e \<Rightarrow> t (h ! r) a = Inl e
         | Inr r' \<Rightarrow> r' < length h1 \<and> t (h ! r) a = Inr (h1 ! r')"
    by (simp_all split: sum.splits)
qed

lemma pure_sensorD:
  assumes "pure_sensor S s" and "r < length h" and "S h z r = (x, h1)"
  shows "extends h h1"
    and "case x of Inl e \<Rightarrow> s z (h ! r) = Inl e
         | Inr r' \<Rightarrow> r' < length h1 \<and> s z (h ! r) = Inr (h1 ! r')"
proof -
  from assms(1) have "r < length h \<longrightarrow>
        extends h (snd (S h z r)) \<and>
        (case fst (S h z r) of
           Inl e \<Rightarrow> s z (h ! r) = Inl e
         | Inr r' \<Rightarrow> r' < length (snd (S h z r)) \<and> s z (h ! r) = Inr (snd (S h z r) ! r'))"
    unfolding pure_sensor_def by blast
  with assms(2,3) show "extends h h1"
    and "case x of Inl e \<Rightarrow> s z (h ! r) = Inl e
         | Inr r' \<Rightarrow> r' < length h1 \<and> s z (h ! r) = Inr (h1 ! r')"
    by (simp_all split: sum.splits)
qed

lemma pure_conditionD:
  assumes "pure_condition C c" and "r < length h" and "C h r = (x, h1)"
  shows "extends h h1" and "x = c (h ! r)"
proof -
  from assms(1) have "r < length h \<longrightarrow> extends h (snd (C h r)) \<and> fst (C h r) = c (h ! r)"
    unfolding pure_condition_def by blast
  with assms(2,3) show "extends h h1" and "x = c (h ! r)"
    by simp_all
qed

lemma update_state_h_pure:
  assumes T: "pure_transition T t" and S: "pure_sensor S s" and r: "r < length h"
    and u: "update_state_h h r a z T S = (x, h')"
  shows "extends h h'"
    and "case x of
            Inl e \<Rightarrow> update_state (h ! r) a z t s = Inl e
          | Inr r' \<Rightarrow> r' < length h' \<and> update_state (h ! r) a z t s = Inr (h' ! r')"
proof -
  obtain x1 h1 where T1: "T h r a = (x1, h1)" by (cases "T h r a")
  note e1 = pure_transitionD(1) [OF T r T1] and c1 = pure_transitionD(2) [OF T r T1]
  have "extends h h' \<and> (case x of
            Inl e \<Rightarrow> update_state (h ! r) a z t s = Inl e
          | Inr r' \<Rightarrow> r' < length h' \<and> update_state (h ! r) a z t s = Inr (h' ! r'))"
  proof (cases x1)
    case (Inl e)
    with T1 u have "x = Inl e" "h' = h1" by (simp_all add: update_state_h_def)
    with Inl e1 c1 show ?thesis by (simp add: update_state_def)
  next
    case (Inr p)
    with c1 have p: "p < length h1" and tp: "t (h ! r) a = Inr (h1 ! p)" by simp_all
    obtain x2 h2 where S2: "S h1 z p = (x2, h2)" by (cases "S h1 z p")
    note e2 = pure_sensorD(1) [OF S p S2] and c2 = pure_sensorD(2) [OF S p S2]
    from e1 e2 have e: "extends h h2" by (rule extends_trans)
    from T1 Inr S2 u have xh: "x = x2" "h' = h2"
      by (cases x2; simp add: update_state_h_def)+
    show ?thesis
    proof (cases x2)
      case (Inl e')
      with c2 tp xh e show ?thesis by (simp add: update_state_def)
    next
      case (Inr c)
      with c2 tp xh e show ?thesis by (simp add: update_state_def)
    qed
  qed
  then show "extends h h'"
    and "case x of
            Inl e \<Rightarrow> update_state (h ! r) a z t s = Inl e
          | Inr r' \<Rightarrow> r' < length h' \<and> update_state (h ! r) a z t s = Inr (h' ! r')"
    by simp_all
qed

subsection \<open>Pure collaborators: the agent over the store does what the agent by value does\<close>

lemma rule_match_h_pure:
  assumes "pure_rules Rs rs" and "r < length h"
  shows "extends h (snd (rule_match_h h r Rs)) \<and>
         map_sum (\<lambda>e. e) (map_option action_h) (fst (rule_match_h h r Rs)) =
         map_sum (\<lambda>e. e) (map_option action) (rule_match (h ! r) rs)"
proof -
  from assms(1)
  have "list_all2 (\<lambda>R q. pure_condition (condition_h R) (condition q) \<and> action_h R = action q) Rs rs"
    by (simp add: pure_rules_def)
  then show ?thesis using assms(2)
  proof (induction arbitrary: h rule: list_all2_induct)
    case Nil
    then show ?case by (simp add: extends_refl)
  next
    case (Cons R Rs q rs)
    obtain x h1 where C: "condition_h R h r = (x, h1)" by (cases "condition_h R h r")
    from Cons.hyps(1) have pc: "pure_condition (condition_h R) (condition q)"
      and act: "action_h R = action q" by simp_all
    note e1 = pure_conditionD(1) [OF pc Cons.prems C] and x = pure_conditionD(2) [OF pc Cons.prems C]
    show ?case
    proof (cases "condition q (h ! r)")
      case (Inl e)
      with C e1 x show ?thesis by simp
    next
      case (Inr b)
      show ?thesis
      proof (cases b)
        case True
        with Inr C e1 x act show ?thesis by simp
      next
        case False
        from Cons.prems have r1: "r < length h1" and n1: "h1 ! r = h ! r"
          using extends_length [OF e1] extends_nth [OF e1] by simp_all
        from Cons.IH [OF r1] have "extends h1 (snd (rule_match_h h1 r Rs))"
          and m: "map_sum (\<lambda>e. e) (map_option action_h) (fst (rule_match_h h1 r Rs)) =
               map_sum (\<lambda>e. e) (map_option action) (rule_match (h ! r) rs)"
          using n1 by simp_all
        with e1 have "extends h (snd (rule_match_h h1 r Rs))" by (blast intro: extends_trans)
        with m False Inr C x show ?thesis by simp
      qed
    qed
  qed
qed

lemma perceive_h_pure:
  assumes T: "pure_transition (transition_model_h ag) t"
      and S: "pure_sensor (sensor_model_h ag) s"
      and R: "pure_rules (rules_h ag) rs"
      and r: "state_h ag < length h"
      and p: "perceive_h h ag z = (out, ag', h')"
  shows "extends h h'"
    and "state_h ag' < length h'"
    and "out = fst (perceive (abs_agent t s rs h ag) z)"
    and "abs_agent t s rs h' ag' = snd (perceive (abs_agent t s rs h ag) z)"
    and "transition_model_h ag' = transition_model_h ag"
    and "sensor_model_h ag' = sensor_model_h ag"
    and "rules_h ag' = rules_h ag"
    and "no_op_h ag' = no_op_h ag"
proof -
  let ?av = "abs_agent t s rs h ag"
  obtain x h1 where u: "update_state_h h (state_h ag) (self_action_h ag) z
      (transition_model_h ag) (sensor_model_h ag) = (x, h1)"
    by (cases "update_state_h h (state_h ag) (self_action_h ag) z
      (transition_model_h ag) (sensor_model_h ag)")
  note e1 = update_state_h_pure(1) [OF T S r u] and c1 = update_state_h_pure(2) [OF T S r u]
  have "extends h h' \<and> state_h ag' < length h' \<and> out = fst (perceive ?av z) \<and>
        abs_agent t s rs h' ag' = snd (perceive ?av z) \<and>
        transition_model_h ag' = transition_model_h ag \<and>
        sensor_model_h ag' = sensor_model_h ag \<and> rules_h ag' = rules_h ag \<and>
        no_op_h ag' = no_op_h ag"
  proof (cases x)
    case (Inl e)
    with u p have o: "out = Inl e" "ag' = ag" "h' = h1" by (simp_all add: perceive_h_def)
    from Inl c1 have "update_state (h ! state_h ag) (self_action_h ag) z t s = Inl e" by simp
    then have pv: "perceive ?av z = (Inl e, ?av)" by (simp add: perceive_def abs_agent_def)
    from e1 r have "h1 ! state_h ag = h ! state_h ag" and "state_h ag < length h1"
      using extends_nth [OF e1 r] extends_length [OF e1] by simp_all
    with o pv e1 show ?thesis by (simp add: abs_agent_def)
  next
    case (Inr st)
    with c1 have st: "st < length h1"
      and uv: "update_state (h ! state_h ag) (self_action_h ag) z t s = Inr (h1 ! st)"
      by simp_all
    obtain m h2 where rm: "rule_match_h h1 st (rules_h ag) = (m, h2)"
      by (cases "rule_match_h h1 st (rules_h ag)")
    from rule_match_h_pure [OF R st] rm have e2: "extends h1 h2"
      and mm: "map_sum (\<lambda>e. e) (map_option action_h) m =
               map_sum (\<lambda>e. e) (map_option action) (rule_match (h1 ! st) rs)"
      by simp_all
    from e1 e2 have e: "extends h h2" by (rule extends_trans)
    from st have st2: "st < length h2" and n2: "h2 ! st = h1 ! st"
      using extends_length [OF e2] extends_nth [OF e2 st] by simp_all
    show ?thesis
    proof (cases m)
      case (Inl e')
      with u Inr rm p have o: "out = Inl e'" "ag' = ag\<lparr>state_h := st\<rparr>" "h' = h2"
        by (simp_all add: perceive_h_def Let_def)
      from Inl mm have "rule_match (h1 ! st) rs = Inl e'"
        by (cases "rule_match (h1 ! st) rs") simp_all
      with uv have pv: "perceive ?av z = (Inl e', ?av\<lparr>state := h1 ! st\<rparr>)"
        by (simp add: perceive_def abs_agent_def Let_def)
      from o pv e st2 n2 show ?thesis by (simp add: abs_agent_def)
    next
      case m: (Inr mo)
      let ?a = "case mo of Some r' \<Rightarrow> action_h r' | None \<Rightarrow> no_op_h ag"
      from u Inr rm m p
      have o: "out = Inr ?a" "ag' = ag\<lparr>state_h := st, self_action_h := ?a\<rparr>" "h' = h2"
        by (cases mo; auto simp: perceive_h_def Let_def)+
      from m mm obtain mv where mv: "rule_match (h1 ! st) rs = Inr mv"
        and ma: "map_option action_h mo = map_option action mv"
        by (cases "rule_match (h1 ! st) rs") simp_all
      from ma have a: "?a = (case mv of Some r' \<Rightarrow> action r' | None \<Rightarrow> no_op_h ag)"
        by (cases mo; cases mv) simp_all
      from uv mv have pv: "perceive ?av z =
          (Inr (case mv of Some r' \<Rightarrow> action r' | None \<Rightarrow> no_op_h ag),
           ?av\<lparr>state := h1 ! st,
                self_action := (case mv of Some r' \<Rightarrow> action r' | None \<Rightarrow> no_op_h ag)\<rparr>)"
        by (cases mv) (simp_all add: perceive_def abs_agent_def Let_def)
      from o pv e st2 n2 a show ?thesis by (simp add: abs_agent_def)
    qed
  qed
  then show "extends h h'"
    and "state_h ag' < length h'"
    and "out = fst (perceive (abs_agent t s rs h ag) z)"
    and "abs_agent t s rs h' ag' = snd (perceive (abs_agent t s rs h ag) z)"
    and "transition_model_h ag' = transition_model_h ag"
    and "sensor_model_h ag' = sensor_model_h ag"
    and "rules_h ag' = rules_h ag"
    and "no_op_h ag' = no_op_h ag"
    by simp_all
qed

lemma run_h_pure:
  assumes T: "pure_transition (transition_model_h ag) t"
      and S: "pure_sensor (sensor_model_h ag) s"
      and R: "pure_rules (rules_h ag) rs"
      and r: "state_h ag < length h"
  shows "fst (run_h h ag zs) = fst (run (abs_agent t s rs h ag) zs) \<and>
         extends h (snd (snd (run_h h ag zs))) \<and>
         state_h (fst (snd (run_h h ag zs))) < length (snd (snd (run_h h ag zs))) \<and>
         abs_agent t s rs (snd (snd (run_h h ag zs))) (fst (snd (run_h h ag zs))) =
           snd (run (abs_agent t s rs h ag) zs)"
  using assms
proof (induction zs arbitrary: h ag)
  case Nil
  then show ?case by (simp add: extends_refl)
next
  case (Cons z zs)
  let ?av = "abs_agent t s rs h ag"
  obtain out ag' h' where p: "perceive_h h ag z = (out, ag', h')"
    by (cases "perceive_h h ag z")
  note f = perceive_h_pure [OF Cons.prems p]
  obtain av' where pv: "perceive ?av z = (out, av')" and av': "av' = abs_agent t s rs h' ag'"
    using f(3) f(4) by (cases "perceive ?av z") simp
  have st': "state av' = h' ! state_h ag'" by (simp add: av' abs_agent_def)
  show ?case
  proof (cases out)
    case (Inl e)
    with p pv st' f(1) f(2) av' show ?thesis by simp
  next
    case (Inr a)
    have T': "pure_transition (transition_model_h ag') t"
      and S': "pure_sensor (sensor_model_h ag') s"
      and R': "pure_rules (rules_h ag') rs"
      using Cons.prems f(5) f(6) f(7) by simp_all
    note ih = Cons.IH [OF T' S' R' f(2)]
    obtain tr agf hf where rh: "run_h h' ag' zs = (tr, agf, hf)"
      by (cases "run_h h' ag' zs")
    obtain trv agv where rv: "run av' zs = (trv, agv)"
      by (cases "run av' zs")
    from ih rh rv av' have "tr = trv" and e': "extends h' hf" and "state_h agf < length hf"
      and "abs_agent t s rs hf agf = agv"
      by simp_all
    moreover from f(1) e' have "extends h hf" by (rule extends_trans)
    ultimately show ?thesis
      using Inr p pv st' rh rv by simp
  qed
qed

lemma vacuum_transition_model_h_pure:
  "pure_transition vacuum_transition_model_h (\<lambda>st a. Inr (vacuum_transition_model st a))"
  by (simp add: pure_transition_def vacuum_transition_model_h_def extends_def nth_append)

lemma vacuum_sensor_model_h_pure:
  "pure_sensor vacuum_sensor_model_h vacuum_sensor_model"
  by (simp add: pure_sensor_def vacuum_sensor_model_h_def extends_def nth_append
      split: sum.splits)

lemma vacuum_rules_h_pure: "pure_rules vacuum_rules_h vacuum_rules"
  by (simp add: pure_rules_def vacuum_rules_h_def vacuum_rules_def pure_condition_def
      extends_def)

lemma vacuum_models_nonmutating:
  "nonmutating_transition vacuum_transition_model_h"
  "nonmutating_sensor vacuum_sensor_model_h"
  by (simp_all add: nonmutating_transition_def nonmutating_sensor_def
      vacuum_transition_model_h_def vacuum_sensor_model_h_def extends_def split: sum.splits)

text \<open>
  Without purity the replay is not reproducible. A transition model that writes the move
  into the dictionary it is handed, instead of into a copy, and two agents constructed
  with the same initial dictionary: the first replay returns RIGHT, LEFT, the second
  LEFT, RIGHT.
\<close>

lemma replay_differs_when_model_writes:
  "fst (run_h [mk_belief ''A'' False False]
         \<lparr>transition_model_h = (\<lambda>h r a.
             if a = PStr ''LEFT'' then (Inr r, h[r := store (h ! r) (PStr ''loc'') (PStr ''A'')])
             else if a = PStr ''RIGHT''
               then (Inr r, h[r := store (h ! r) (PStr ''loc'') (PStr ''B'')])
             else (Inr r, h)),
           sensor_model_h = (\<lambda>h z r. (Inr r, h)), rules_h = vacuum_rules_h,
           state_h = 0, self_action_h = PStr ''NO-OP'', no_op_h = PStr ''NO-OP''\<rparr>
         [(), ()])
     = [(Inr (PStr ''RIGHT''), mk_belief ''A'' False False),
        (Inr (PStr ''LEFT''), mk_belief ''B'' False False)] \<and>
   fst (run_h
         (snd (snd (run_h [mk_belief ''A'' False False]
           \<lparr>transition_model_h = (\<lambda>h r a.
               if a = PStr ''LEFT'' then (Inr r, h[r := store (h ! r) (PStr ''loc'') (PStr ''A'')])
               else if a = PStr ''RIGHT''
                 then (Inr r, h[r := store (h ! r) (PStr ''loc'') (PStr ''B'')])
               else (Inr r, h)),
             sensor_model_h = (\<lambda>h z r. (Inr r, h)), rules_h = vacuum_rules_h,
             state_h = 0, self_action_h = PStr ''NO-OP'', no_op_h = PStr ''NO-OP''\<rparr>
           [(), ()])))
         \<lparr>transition_model_h = (\<lambda>h r a.
             if a = PStr ''LEFT'' then (Inr r, h[r := store (h ! r) (PStr ''loc'') (PStr ''A'')])
             else if a = PStr ''RIGHT''
               then (Inr r, h[r := store (h ! r) (PStr ''loc'') (PStr ''B'')])
             else (Inr r, h)),
           sensor_model_h = (\<lambda>h z r. (Inr r, h)), rules_h = vacuum_rules_h,
           state_h = 0, self_action_h = PStr ''NO-OP'', no_op_h = PStr ''NO-OP''\<rparr>
         [(), ()])
     = [(Inr (PStr ''LEFT''), mk_belief ''B'' False False),
        (Inr (PStr ''RIGHT''), mk_belief ''A'' False False)]"
  by code_simp

section \<open>The claims\<close>

subsection \<open>C1: one cycle of \<^verbatim>\<open>perceive\<close>\<close>

text \<open>
  C1. Whenever the belief update and the rule matching of a \<^verbatim>\<open>perceive\<close> call return (no
  collaborator raises), the call replaces the agent's belief state with the result of
  \<^verbatim>\<open>update_state\<close> on the old state, the last action and the percept, matches that new
  state against the rules, chooses the matched rule's action, or the no-op when no rule
  matched, stores the chosen action as the last action and returns it.
\<close>

theorem perceive_update_match_store:
  assumes "update_state (state ag) (self_action ag) z (transition_model ag) (sensor_model ag)
             = Inr st'"
      and "rule_match st' (rules ag) = Inr m"
  shows "perceive ag z =
           (Inr (case m of Some r \<Rightarrow> action r | None \<Rightarrow> no_op ag),
            ag\<lparr>state := st',
               self_action := (case m of Some r \<Rightarrow> action r | None \<Rightarrow> no_op ag)\<rparr>)"
  using assms by (cases m) (simp_all add: perceive_def Let_def)

text \<open>
  The demonstration agent on its first percept (a rule matches), and the same agent with
  an empty rule list (no rule matches: the no-op).
\<close>

theorem perceive_update_match_store_witness:
  "perceive demo_agent (mk_percept ''A'' True) =
     (Inr (PStr ''SUCK''),
      demo_agent\<lparr>state := mk_belief ''A'' True True, self_action := PStr ''SUCK''\<rparr>) \<and>
   perceive (demo_agent\<lparr>rules := []\<rparr>) (mk_percept ''A'' True) =
     (Inr (PStr ''NO-OP''),
      demo_agent\<lparr>rules := [], state := mk_belief ''A'' True True,
        self_action := PStr ''NO-OP''\<rparr>)"
proof -
  have u: "update_state (state demo_agent) (self_action demo_agent) (mk_percept ''A'' True)
             (transition_model demo_agent) (sensor_model demo_agent)
           = Inr (mk_belief ''A'' True True)"
    by (simp add: update_state_def demo_agent_def vacuum_agent_def ModelBasedReflexAgent_def
        vacuum_transition_model_def vacuum_sensor_model_def mk_percept_def mk_belief_def
        py_getitem_def py_setitem_def lookup_default_def)
  have m: "rule_match (mk_belief ''A'' True True) (rules demo_agent)
           = Inr (Some (Rule dirty_here (PStr ''SUCK'')))"
    by (simp add: demo_agent_def vacuum_agent_def ModelBasedReflexAgent_def vacuum_rules_def
        dirty_here_def mk_belief_def lookup_default_def py_get_def)
  have u': "update_state (state (demo_agent\<lparr>rules := []\<rparr>))
              (self_action (demo_agent\<lparr>rules := []\<rparr>)) (mk_percept ''A'' True)
              (transition_model (demo_agent\<lparr>rules := []\<rparr>))
              (sensor_model (demo_agent\<lparr>rules := []\<rparr>))
            = Inr (mk_belief ''A'' True True)"
    using u by simp
  have m': "rule_match (mk_belief ''A'' True True) (rules (demo_agent\<lparr>rules := []\<rparr>)) = Inr None"
    by simp
  have n: "no_op demo_agent = PStr ''NO-OP''"
    by (simp add: demo_agent_def vacuum_agent_def ModelBasedReflexAgent_def)
  show ?thesis
    using perceive_update_match_store [OF u m] perceive_update_match_store [OF u' m'] n
    by simp
qed

subsection \<open>C2: predict, then correct\<close>

text \<open>
  C2. \<^verbatim>\<open>update_state\<close> calls the transition model on the state and the last action only; if
  that raises, the sensor model is not called; otherwise the result of the call is what
  the sensor model makes of the percept and the predicted state. For collaborators that
  always return, \<open>T\<close> and \<open>S\<close>, the result is \<open>S percept (T state last_action)\<close>.
\<close>

theorem update_state_predict_then_correct:
  "update_state st a z tm sm =
     (case tm st a of Inl e \<Rightarrow> Inl e | Inr predicted \<Rightarrow> sm z predicted) \<and>
   update_state st a z (\<lambda>s b. Inr (T s b)) (\<lambda>p s. Inr (S p s)) = Inr (S z (T st a))"
  by (simp add: update_state_def split: sum.splits)

subsection \<open>C3: the first rule whose condition holds\<close>

text \<open>
  C3. \<^verbatim>\<open>rule_match\<close> returns a rule exactly when that rule is the first of the list, in list
  order, whose condition is true on the state, the conditions of all rules before it
  being false; it returns \<^verbatim>\<open>None\<close> exactly when every condition of the list is false on the
  state. No match is never an error: the call raises only an exception that a condition
  raised, every condition before it being false. So when every condition returns on the
  state, the call returns the first rule whose condition is true, or \<^verbatim>\<open>None\<close>.
\<close>

theorem rule_match_first_true:
  "(\<forall>r. rule_match st rs = Inr (Some r) \<longleftrightarrow>
      (\<exists>i<length rs. rs ! i = r \<and> condition r st = Inr True \<and>
         (\<forall>j<i. condition (rs ! j) st = Inr False))) \<and>
   (rule_match st rs = Inr None \<longleftrightarrow> (\<forall>q\<in>set rs. condition q st = Inr False)) \<and>
   (\<forall>e. rule_match st rs = Inl e \<longleftrightarrow>
      (\<exists>i<length rs. condition (rs ! i) st = Inl e \<and>
         (\<forall>j<i. condition (rs ! j) st = Inr False))) \<and>
   ((\<forall>r\<in>set rs. \<not> isl (condition r st)) \<longrightarrow>
      rule_match st rs = Inr (find (\<lambda>r. condition r st = Inr True) rs))"
  using rule_match_find [of rs st] rule_match_Some_iff [of st rs] rule_match_None_iff [of st rs]
    rule_match_Inl_iff [of st rs]
  by blast

text \<open>The vacuum rules on a clean square B (third rule), and on an unknown square (no rule).\<close>

theorem rule_match_first_true_witness:
  "rule_match (mk_belief ''B'' False False) vacuum_rules
     = Inr (Some (Rule at_B (PStr ''LEFT''))) \<and>
   rule_match (mk_belief ''C'' False False) vacuum_rules = Inr None"
proof -
  have h: "\<forall>r\<in>set vacuum_rules. \<not> isl (condition r (mk_belief ''B'' False False))"
    by (simp add: vacuum_rules_def dirty_here_def at_A_def at_B_def mk_belief_def
        lookup_default_def py_get_def)
  have h': "\<forall>r\<in>set vacuum_rules. \<not> isl (condition r (mk_belief ''C'' False False))"
    by (simp add: vacuum_rules_def dirty_here_def at_A_def at_B_def mk_belief_def
        lookup_default_def py_get_def)
  note t = rule_match_first_true [THEN conjunct2, THEN conjunct2, THEN conjunct2, THEN mp]
  show ?thesis
    using t [OF h] t [OF h']
    by (simp add: vacuum_rules_def dirty_here_def at_A_def at_B_def mk_belief_def
        lookup_default_def py_get_def)
qed

subsection \<open>C4: the vacuum-world scenario\<close>

text \<open>
  C4. From the initial belief \<^verbatim>\<open>{loc:'A', dirty:{A:true,B:true}}\<close> with no-op \<^verbatim>\<open>'NO-OP'\<close>, the
  five percepts of the demonstration give the actions SUCK, RIGHT, SUCK, LEFT, RIGHT, and
  the belief state after each step is the one listed.
\<close>

theorem vacuum_demo_trace:
  "fst (run demo_agent demo_percepts) =
   [(Inr (PStr ''SUCK''), mk_belief ''A'' True True),
    (Inr (PStr ''RIGHT''), mk_belief ''A'' False True),
    (Inr (PStr ''SUCK''), mk_belief ''B'' False True),
    (Inr (PStr ''LEFT''), mk_belief ''B'' False False),
    (Inr (PStr ''RIGHT''), mk_belief ''A'' False False)]"
  by code_simp

subsection \<open>C5: first in order wins\<close>

text \<open>
  C5. When the conditions of two rules are both true on a state, \<^verbatim>\<open>rule_match\<close> on a list
  that begins with the two returns the first of them, and on the list with the two
  swapped it returns the other: for two different rules the results differ.
\<close>

theorem rule_match_order_sensitive:
  assumes "condition r1 st = Inr True" and "condition r2 st = Inr True"
  shows "rule_match st (r1 # r2 # rs) = Inr (Some r1) \<and>
         rule_match st (r2 # r1 # rs) = Inr (Some r2) \<and>
         (r1 \<noteq> r2 \<longrightarrow> rule_match st (r1 # r2 # rs) \<noteq> rule_match st (r2 # r1 # rs))"
  using assms by simp

text \<open>On a dirty square A both the dirt rule and the at-A rule hold.\<close>

theorem rule_match_order_sensitive_witness:
  "rule_match (mk_belief ''A'' True True)
     [Rule dirty_here (PStr ''SUCK''), Rule at_A (PStr ''RIGHT''), Rule at_B (PStr ''LEFT'')]
     = Inr (Some (Rule dirty_here (PStr ''SUCK''))) \<and>
   rule_match (mk_belief ''A'' True True)
     [Rule at_A (PStr ''RIGHT''), Rule dirty_here (PStr ''SUCK''), Rule at_B (PStr ''LEFT'')]
     = Inr (Some (Rule at_A (PStr ''RIGHT''))) \<and>
   rule_match (mk_belief ''A'' True True)
     [Rule dirty_here (PStr ''SUCK''), Rule at_A (PStr ''RIGHT''), Rule at_B (PStr ''LEFT'')]
   \<noteq> rule_match (mk_belief ''A'' True True)
     [Rule at_A (PStr ''RIGHT''), Rule dirty_here (PStr ''SUCK''), Rule at_B (PStr ''LEFT'')]"
proof -
  have a: "condition (Rule dirty_here (PStr ''SUCK'')) (mk_belief ''A'' True True) = Inr True"
    by (simp add: dirty_here_def mk_belief_def lookup_default_def py_get_def)
  have b: "condition (Rule at_A (PStr ''RIGHT'')) (mk_belief ''A'' True True) = Inr True"
    by (simp add: at_A_def mk_belief_def lookup_default_def)
  have c: "Rule dirty_here (PStr ''SUCK'') \<noteq> Rule at_A (PStr ''RIGHT'')"
    by simp
  show ?thesis
    using rule_match_order_sensitive [OF a b, of "[Rule at_B (PStr ''LEFT'')]"] c
    by blast
qed

subsection \<open>C6: determinism\<close>

text \<open>
  C6. Let the transition model, the sensor model and the rule conditions be pure and
  deterministic. Take two freshly constructed agents (last action equal to the no-op)
  with these collaborators, the same rules and no-op, and initial belief states of equal
  content, be they two dictionaries or one shared dictionary. Replay a percept sequence
  into the first agent, and then the same sequence into the second, in the store the first
  replay left. Both replays return the same actions and have the same belief state after
  every step, and the two agents end in the same belief state. The actions and states
  are those of the agent by value.
\<close>

theorem replay_deterministic:
  assumes T: "pure_transition (transition_model_h a1) t"
      and S: "pure_sensor (sensor_model_h a1) s"
      and R: "pure_rules (rules_h a1) rs"
      and same: "transition_model_h a2 = transition_model_h a1"
                "sensor_model_h a2 = sensor_model_h a1"
                "rules_h a2 = rules_h a1"
                "no_op_h a2 = no_op_h a1"
      and fresh: "self_action_h a1 = no_op_h a1" "self_action_h a2 = no_op_h a2"
      and init: "state_h a1 < length h" "state_h a2 < length h"
                "h ! state_h a2 = h ! state_h a1"
  shows "fst (run_h (snd (snd (run_h h a1 zs))) a2 zs) = fst (run_h h a1 zs) \<and>
         snd (snd (run_h (snd (snd (run_h h a1 zs))) a2 zs))
             ! state_h (fst (snd (run_h (snd (snd (run_h h a1 zs))) a2 zs))) =
         snd (snd (run_h h a1 zs)) ! state_h (fst (snd (run_h h a1 zs))) \<and>
         fst (run_h h a1 zs) =
           fst (run \<lparr>transition_model = t, sensor_model = s, rules = rs,
                     state = h ! state_h a1, self_action = no_op_h a1, no_op = no_op_h a1\<rparr> zs)"
proof -
  let ?h1 = "snd (snd (run_h h a1 zs))"
  let ?av = "abs_agent t s rs h a1"
  note r1 = run_h_pure [OF T S R init(1), of zs]
  from r1 have e: "extends h ?h1" by simp
  have v2: "state_h a2 < length ?h1"
    using init(2) extends_length [OF e] by simp
  have "?h1 ! state_h a2 = h ! state_h a2"
    using extends_nth [OF e init(2)] .
  then have abs2: "abs_agent t s rs ?h1 a2 = ?av"
    using init(3) same(4) fresh by (simp add: abs_agent_def)
  have T2: "pure_transition (transition_model_h a2) t"
    and S2: "pure_sensor (sensor_model_h a2) s"
    and R2: "pure_rules (rules_h a2) rs"
    using T S R same by simp_all
  note r2 = run_h_pure [OF T2 S2 R2 v2, of zs]
  let ?f1 = "snd (snd (run_h h a1 zs)) ! state_h (fst (snd (run_h h a1 zs)))"
  let ?f2 = "snd (snd (run_h ?h1 a2 zs)) ! state_h (fst (snd (run_h ?h1 a2 zs)))"
  from r1 have "state (abs_agent t s rs (snd (snd (run_h h a1 zs))) (fst (snd (run_h h a1 zs))))
      = state (snd (run ?av zs))" by simp
  then have f1: "?f1 = state (snd (run ?av zs))" by (simp add: abs_agent_def)
  from r2 abs2
  have "state (abs_agent t s rs (snd (snd (run_h ?h1 a2 zs))) (fst (snd (run_h ?h1 a2 zs))))
      = state (snd (run ?av zs))" by simp
  then have f2: "?f2 = state (snd (run ?av zs))" by (simp add: abs_agent_def)
  have av: "?av = \<lparr>transition_model = t, sensor_model = s, rules = rs,
                     state = h ! state_h a1, self_action = no_op_h a1, no_op = no_op_h a1\<rparr>"
    using fresh(1) by (simp add: abs_agent_def)
  from r1 r2 abs2 f1 f2 av show ?thesis by simp
qed

text \<open>Two vacuum agents constructed with one initial dictionary, on the five percepts.\<close>

theorem replay_deterministic_witness:
  "fst (run_h
         (snd (snd (run_h [mk_belief ''A'' True True]
            (fst (vacuum_agent_h [mk_belief ''A'' True True] (Some 0) (PStr ''NO-OP'')))
            demo_percepts)))
         (fst (vacuum_agent_h [mk_belief ''A'' True True] (Some 0) (PStr ''NO-OP'')))
         demo_percepts) =
   fst (run_h [mk_belief ''A'' True True]
         (fst (vacuum_agent_h [mk_belief ''A'' True True] (Some 0) (PStr ''NO-OP'')))
         demo_percepts)"
proof -
  let ?h = "[mk_belief ''A'' True True]"
  let ?a = "fst (vacuum_agent_h ?h (Some 0) (PStr ''NO-OP''))"
  have a: "?a = \<lparr>transition_model_h = vacuum_transition_model_h,
                  sensor_model_h = vacuum_sensor_model_h, rules_h = vacuum_rules_h,
                  state_h = 0, self_action_h = PStr ''NO-OP'', no_op_h = PStr ''NO-OP''\<rparr>"
    by (simp add: vacuum_agent_h_def ModelBasedReflexAgent_h_def mk_belief_def)
  have T: "pure_transition (transition_model_h ?a) (\<lambda>st a. Inr (vacuum_transition_model st a))"
    using vacuum_transition_model_h_pure by (simp add: a)
  have S: "pure_sensor (sensor_model_h ?a) vacuum_sensor_model"
    using vacuum_sensor_model_h_pure by (simp add: a)
  have R: "pure_rules (rules_h ?a) vacuum_rules"
    using vacuum_rules_h_pure by (simp add: a)
  have fresh: "self_action_h ?a = no_op_h ?a" by (simp add: a)
  have init: "state_h ?a < length ?h" by (simp add: a)
  from replay_deterministic [OF T S R refl refl refl refl fresh fresh init init refl,
      of demo_percepts]
  show ?thesis by (rule conjunct1)
qed

subsection \<open>C7: the no-op leaves the predicted state unchanged\<close>

text \<open>
  C7. For every belief state, the vacuum transition model with last action \<^verbatim>\<open>'NO-OP'\<close>
  returns that state; so with that last action the predicted state handed to the sensor
  model by \<^verbatim>\<open>update_state\<close> is the prior state.
\<close>

theorem vacuum_transition_noop_identity:
  "vacuum_transition_model s (PStr ''NO-OP'') = s \<and>
   update_state s (PStr ''NO-OP'') z (\<lambda>st a. Inr (vacuum_transition_model st a)) sm = sm z s"
  by (simp add: vacuum_transition_model_def update_state_def split: sum.splits)

subsection \<open>C8: an exception of a model leaves the agent unchanged\<close>

text \<open>
  As stated, for any model, C8 fails: a transition model that empties the dictionary it
  is handed and then raises. \<^verbatim>\<open>perceive\<close> raises, \<^verbatim>\<open>self.state\<close> is still the same object, and
  its content is no longer what it was before the call.
\<close>

theorem perceive_h_exception_mutated_counterexample:
  "fst (perceive_h [mk_belief ''A'' True True]
          \<lparr>transition_model_h = (\<lambda>h r a. (Inl ValueError, h[r := []])),
            sensor_model_h = vacuum_sensor_model_h, rules_h = vacuum_rules_h,
            state_h = 0, self_action_h = PStr ''NO-OP'', no_op_h = PStr ''NO-OP''\<rparr>
          (mk_percept ''A'' True))
     = Inl ValueError \<and>
   state_h (fst (snd (perceive_h [mk_belief ''A'' True True]
          \<lparr>transition_model_h = (\<lambda>h r a. (Inl ValueError, h[r := []])),
            sensor_model_h = vacuum_sensor_model_h, rules_h = vacuum_rules_h,
            state_h = 0, self_action_h = PStr ''NO-OP'', no_op_h = PStr ''NO-OP''\<rparr>
          (mk_percept ''A'' True)))) = 0 \<and>
   [mk_belief ''A'' True True] ! 0 = mk_belief ''A'' True True \<and>
   snd (snd (perceive_h [mk_belief ''A'' True True]
          \<lparr>transition_model_h = (\<lambda>h r a. (Inl ValueError, h[r := []])),
            sensor_model_h = vacuum_sensor_model_h, rules_h = vacuum_rules_h,
            state_h = 0, self_action_h = PStr ''NO-OP'', no_op_h = PStr ''NO-OP''\<rparr>
          (mk_percept ''A'' True))) ! 0
     = [] \<and>
   mk_belief ''A'' True True \<noteq> []"
  by (simp add: perceive_h_def update_state_h_def mk_belief_def)

text \<open>
  C8, amended. If the transition model raises, or it returns and the sensor model raises
  on its result, and neither model writes into an object that existed before it was
  called, then \<^verbatim>\<open>perceive\<close> raises that exception and the agent is as it was before the
  call: neither \<^verbatim>\<open>state\<close> nor the last action has been assigned, and the belief state, like
  every object that existed, has the content it had.
\<close>

theorem perceive_h_exception_atomic:
  assumes T: "nonmutating_transition (transition_model_h ag)"
      and S: "nonmutating_sensor (sensor_model_h ag)"
      and r: "state_h ag < length h"
      and raises:
        "fst (transition_model_h ag h (state_h ag) (self_action_h ag)) = Inl e \<or>
         (\<exists>predicted h1.
            transition_model_h ag h (state_h ag) (self_action_h ag) = (Inr predicted, h1) \<and>
            fst (sensor_model_h ag h1 z predicted) = Inl e)"
  shows "fst (perceive_h h ag z) = Inl e \<and>
         fst (snd (perceive_h h ag z)) = ag \<and>
         extends h (snd (snd (perceive_h h ag z))) \<and>
         snd (snd (perceive_h h ag z)) ! state_h ag = h ! state_h ag"
proof -
  obtain x1 h1 where T1: "transition_model_h ag h (state_h ag) (self_action_h ag) = (x1, h1)"
    by (cases "transition_model_h ag h (state_h ag) (self_action_h ag)")
  from T have "extends h (snd (transition_model_h ag h (state_h ag) (self_action_h ag)))"
    unfolding nonmutating_transition_def by blast
  with T1 have e1: "extends h h1" by simp
  have "\<exists>h'. perceive_h h ag z = (Inl e, ag, h') \<and> extends h h'"
  proof (cases x1)
    case (Inl e')
    with raises T1 have "e' = e" by auto
    with Inl T1 e1 show ?thesis by (simp add: perceive_h_def update_state_h_def)
  next
    case (Inr p)
    with raises T1 have se: "fst (sensor_model_h ag h1 z p) = Inl e" by auto
    obtain h2 where S2: "sensor_model_h ag h1 z p = (Inl e, h2)"
      using se by (cases "sensor_model_h ag h1 z p") simp
    from S have "extends h1 (snd (sensor_model_h ag h1 z p))"
      unfolding nonmutating_sensor_def by blast
    with S2 have "extends h1 h2" by simp
    with e1 have "extends h h2" by (rule extends_trans)
    with Inr T1 S2 show ?thesis by (simp add: perceive_h_def update_state_h_def)
  qed
  then obtain h' where p: "perceive_h h ag z = (Inl e, ag, h')" and e: "extends h h'" by blast
  from extends_nth [OF e r] p e show ?thesis by simp
qed

text \<open>The vacuum sensor model raises \<^verbatim>\<open>KeyError\<close> on a percept without \<^verbatim>\<open>'loc'\<close>.\<close>

theorem perceive_h_exception_atomic_witness:
  "fst (perceive_h [mk_belief ''A'' True True]
          (fst (vacuum_agent_h [mk_belief ''A'' True True] (Some 0) (PStr ''NO-OP''))) [])
     = Inl KeyError \<and>
   fst (snd (perceive_h [mk_belief ''A'' True True]
          (fst (vacuum_agent_h [mk_belief ''A'' True True] (Some 0) (PStr ''NO-OP''))) []))
     = fst (vacuum_agent_h [mk_belief ''A'' True True] (Some 0) (PStr ''NO-OP'')) \<and>
   snd (snd (perceive_h [mk_belief ''A'' True True]
          (fst (vacuum_agent_h [mk_belief ''A'' True True] (Some 0) (PStr ''NO-OP''))) []))
     ! 0 = mk_belief ''A'' True True"
proof -
  let ?h = "[mk_belief ''A'' True True]"
  let ?a = "fst (vacuum_agent_h ?h (Some 0) (PStr ''NO-OP''))"
  have a: "?a = \<lparr>transition_model_h = vacuum_transition_model_h,
                  sensor_model_h = vacuum_sensor_model_h, rules_h = vacuum_rules_h,
                  state_h = 0, self_action_h = PStr ''NO-OP'', no_op_h = PStr ''NO-OP''\<rparr>"
    by (simp add: vacuum_agent_h_def ModelBasedReflexAgent_h_def mk_belief_def)
  have T: "nonmutating_transition (transition_model_h ?a)"
    using vacuum_models_nonmutating(1) by (simp add: a)
  have S: "nonmutating_sensor (sensor_model_h ?a)"
    using vacuum_models_nonmutating(2) by (simp add: a)
  have r: "state_h ?a < length ?h" by (simp add: a)
  have raises:
    "fst (transition_model_h ?a ?h (state_h ?a) (self_action_h ?a)) = Inl KeyError \<or>
     (\<exists>predicted h1.
        transition_model_h ?a ?h (state_h ?a) (self_action_h ?a) = (Inr predicted, h1) \<and>
        fst (sensor_model_h ?a h1 [] predicted) = Inl KeyError)"
    by (simp add: a vacuum_transition_model_h_def vacuum_sensor_model_h_def
        vacuum_sensor_model_def py_getitem_def)
  from perceive_h_exception_atomic [OF T S r raises]
  show ?thesis by (simp add: a)
qed

subsection \<open>C9: the frame of \<^verbatim>\<open>perceive\<close>\<close>

text \<open>
  C9. Whatever \<^verbatim>\<open>perceive\<close> does (return or raise), the agent after the call has the
  transition model, sensor model, rules and no-op it had before: it differs from the
  agent before the call in \<^verbatim>\<open>state\<close> and the last action at most.
\<close>

theorem perceive_frame:
  "transition_model (snd (perceive ag z)) = transition_model ag \<and>
   sensor_model (snd (perceive ag z)) = sensor_model ag \<and>
   rules (snd (perceive ag z)) = rules ag \<and>
   no_op (snd (perceive ag z)) = no_op ag \<and>
   (\<exists>st a. snd (perceive ag z) = ag\<lparr>state := st, self_action := a\<rparr>)"
proof (cases "update_state (state ag) (self_action ag) z (transition_model ag) (sensor_model ag)")
  case (Inl e)
  then have p: "perceive ag z = (Inl e, ag)" by (simp add: perceive_def)
  have "ag = ag\<lparr>state := state ag, self_action := self_action ag\<rparr>" by simp
  then have "\<exists>st a. ag = ag\<lparr>state := st, self_action := a\<rparr>" by blast
  with p show ?thesis by simp
next
  case (Inr st')
  show ?thesis
  proof (cases "rule_match st' (rules ag)")
    case (Inl e)
    with Inr have p: "perceive ag z = (Inl e, ag\<lparr>state := st'\<rparr>)"
      by (simp add: perceive_def Let_def)
    have "ag\<lparr>state := st'\<rparr> = ag\<lparr>state := st', self_action := self_action ag\<rparr>" by simp
    then have "\<exists>st a. ag\<lparr>state := st'\<rparr> = ag\<lparr>state := st, self_action := a\<rparr>" by blast
    with p show ?thesis by simp
  next
    case m: (Inr m)
    with Inr obtain a where p: "perceive ag z = (Inr a, ag\<lparr>state := st', self_action := a\<rparr>)"
      by (simp add: perceive_def Let_def)
    have "\<exists>st b. ag\<lparr>state := st', self_action := a\<rparr> = ag\<lparr>state := st, self_action := b\<rparr>" by blast
    with p show ?thesis by simp
  qed
qed

subsection \<open>C10: the vacuum agent always acts\<close>

text \<open>
  As stated, for every prior belief state, C10 fails: where the prior belief maps
  \<^verbatim>\<open>'dirty'\<close> to \<^verbatim>\<open>None\<close>, the sensor model's \<^verbatim>\<open>dict(dirty)\<close> raises \<^verbatim>\<open>TypeError\<close>, and \<^verbatim>\<open>perceive\<close>
  returns no action at all.
\<close>

theorem vacuum_perceive_raises_counterexample:
  "fst (perceive (vacuum_agent (Some [(PStr ''dirty'', PNone)]) (PStr ''NO-OP''))
          (mk_percept ''A'' True)) = Inl TypeError \<and>
   fst (perceive (vacuum_agent (Some [(PStr ''dirty'', PNone)]) (PStr ''NO-OP''))
          (mk_percept ''A'' True))
     \<notin> {Inr (PStr ''SUCK''), Inr (PStr ''RIGHT''), Inr (PStr ''LEFT'')}"
  by code_simp

text \<open>
  C10, amended. In the vacuum world, for every prior belief state whose \<^verbatim>\<open>'dirty'\<close> entry is
  absent or a dictionary, every last action, and every percept whose \<^verbatim>\<open>'loc'\<close> is \<^verbatim>\<open>'A'\<close> or
  \<^verbatim>\<open>'B'\<close> and whose \<^verbatim>\<open>'dirty'\<close> is a boolean, \<^verbatim>\<open>perceive\<close> returns SUCK when the percept is
  dirty, and otherwise RIGHT at A and LEFT at B: one of SUCK, RIGHT, LEFT, never
  \<^verbatim>\<open>'NO-OP'\<close>.
\<close>

theorem vacuum_perceive_never_noop:
  assumes tm: "transition_model ag = (\<lambda>st a. Inr (vacuum_transition_model st a))"
      and sm: "sensor_model ag = vacuum_sensor_model"
      and rs: "rules ag = vacuum_rules"
      and loc: "map_of z (PStr ''loc'') = Some (PStr l)"
      and AB: "l = ''A'' \<or> l = ''B''"
      and dirty: "map_of z (PStr ''dirty'') = Some (PBool d)"
      and prior: "map_of (state ag) (PStr ''dirty'') = None \<or>
                  (\<exists>dd. map_of (state ag) (PStr ''dirty'') = Some (PDict dd))"
  shows "fst (perceive ag z) =
           Inr (if d then PStr ''SUCK'' else if l = ''A'' then PStr ''RIGHT'' else PStr ''LEFT'') \<and>
         fst (perceive ag z) \<in> {Inr (PStr ''SUCK''), Inr (PStr ''RIGHT''), Inr (PStr ''LEFT'')} \<and>
         fst (perceive ag z) \<noteq> Inr (PStr ''NO-OP'')"
proof -
  let ?p = "vacuum_transition_model (state ag) (self_action ag)"
  from dirty_entry_converts [OF prior]
  obtain dd where "py_dict (lookup_default (state ag) (PStr ''dirty'')
      (PDict [(PStr ''A'', PBool False), (PStr ''B'', PBool False)])) = Inr dd" ..
  then have "py_dict (lookup_default ?p (PStr ''dirty'')
      (PDict [(PStr ''A'', PBool False), (PStr ''B'', PBool False)])) = Inr dd"
    by (simp add: vacuum_transition_dirty)
  from vacuum_sensor_returns [OF loc dirty this]
  have s: "vacuum_sensor_model z ?p =
      Inr (store (store ?p (PStr ''loc'') (PStr l)) (PStr ''dirty'')
             (PDict (store dd (PStr l) (PBool d))))" .
  have u: "update_state (state ag) (self_action ag) z (transition_model ag) (sensor_model ag) =
      Inr (store (store ?p (PStr ''loc'') (PStr l)) (PStr ''dirty'')
             (PDict (store dd (PStr l) (PBool d))))"
    using s by (simp add: update_state_def tm sm)
  have "fst (perceive ag z) =
           Inr (if d then PStr ''SUCK'' else if l = ''A'' then PStr ''RIGHT'' else PStr ''LEFT'')"
    using AB by (auto simp: perceive_def u rs vacuum_rules_on_corrected Let_def)
  then show ?thesis by simp
qed

text \<open>A freshly constructed agent with no initial belief, on a clean square B.\<close>

theorem vacuum_perceive_never_noop_witness:
  "fst (perceive (vacuum_agent None (PStr ''NO-OP'')) (mk_percept ''B'' False))
     = Inr (PStr ''LEFT'')"
proof -
  let ?ag = "vacuum_agent None (PStr ''NO-OP'')"
  have tm: "transition_model ?ag = (\<lambda>st a. Inr (vacuum_transition_model st a))"
    by (simp add: vacuum_agent_def ModelBasedReflexAgent_def)
  have sm: "sensor_model ?ag = vacuum_sensor_model"
    by (simp add: vacuum_agent_def ModelBasedReflexAgent_def)
  have rs: "rules ?ag = vacuum_rules"
    by (simp add: vacuum_agent_def ModelBasedReflexAgent_def)
  have loc: "map_of (mk_percept ''B'' False) (PStr ''loc'') = Some (PStr ''B'')"
    by (simp add: mk_percept_def)
  have AB: "''B'' = ''A'' \<or> ''B'' = ''B''" by simp
  have dirty: "map_of (mk_percept ''B'' False) (PStr ''dirty'') = Some (PBool False)"
    by (simp add: mk_percept_def)
  have prior: "map_of (state ?ag) (PStr ''dirty'') = None \<or>
                  (\<exists>dd. map_of (state ?ag) (PStr ''dirty'') = Some (PDict dd))"
    by (simp add: vacuum_agent_def ModelBasedReflexAgent_def)
  show ?thesis
    using vacuum_perceive_never_noop [OF tm sm rs loc AB dirty prior] by simp
qed

end
